theory Spec2Isabelle
  imports Main
begin

section \<open>FakeQuantizeMulFusion: the graph model\<close>

text \<open>
  The rule of \<^verbatim>\<open>fq_mul_fusion.cpp\<close> rewrites \<^verbatim>\<open>Multiply(FakeQuantize(..), C)\<close> into a
  FakeQuantize whose output range is multiplied by \<^verbatim>\<open>C\<close>. Nodes live in an arena: a node
  is named by its index, a slot holds \<open>None\<close> once the node has been destroyed, and a new
  node takes the next index. Every node kind the rule tests or creates has one output, so an
  input names its producer. The consumer edges of a node are read off the inputs of the live
  nodes, as the library keeps them in step with the inputs.
\<close>

type_synonym node_id = nat
type_synonym shape = "nat list"

datatype dimension = Dynamic | Static nat

datatype partial_shape = Rank_dynamic | Ranked "dimension list"

datatype auto_broadcast_type = NONE | NUMPY | PDPD

datatype node_type =
  FakeQuantize | Multiply | Constant | Convolution | GroupConvolution | Reshape | Other

datatype element_type = boolean | bf16 | f16 | f32 | f64 | i8 | i16 | i32 | i64 | u8 | u16 | u32 | u64

record 'v node =
  node_type :: node_type
  input_values :: "node_id list"
  output_partial_shape :: partial_shape
  element_type :: element_type
  friendly_name :: string
  rt_info :: "string \<rightharpoonup> string"
  auto_broadcast :: auto_broadcast_type
  data :: "'v list"

type_synonym 'v graph = "'v node option list"

text \<open>
  The parts of the library the rule calls and whose code is not part of the rule: the
  acceptance hook of the pass (it answers \<open>True\<close> to veto), shape and type inference of a
  freshly built node, the numeric kernels of an element-wise product of two constant tensors
  and of a reshape of a constant tensor by a constant pattern, the conversion of a dimension
  to an element of a shape constant, the conversion of an element to \<^verbatim>\<open>float\<close> and the
  conversion of a \<^verbatim>\<open>float\<close> to an element of a given type. The values of all element
  types, \<^verbatim>\<open>float\<close> among them, are taken from one domain \<open>'v\<close>. The rule is verified
  for every choice of these parts; a constructor that raises inside the library is not
  modelled.
\<close>

record 'v env =
  transformation_callback :: "'v graph \<Rightarrow> node_id \<Rightarrow> bool"
  infer :: "'v graph \<Rightarrow> 'v node \<Rightarrow> partial_shape \<times> element_type"
  tensor_multiply :: "shape \<times> 'v list \<Rightarrow> shape \<times> 'v list \<Rightarrow> shape \<times> 'v list"
  tensor_reshape :: "shape \<times> 'v list \<Rightarrow> shape \<times> 'v list \<Rightarrow> shape \<times> 'v list"
  index_value :: "nat \<Rightarrow> 'v"
  to_float :: "'v \<Rightarrow> 'v"
  from_float :: "element_type \<Rightarrow> 'v \<Rightarrow> 'v"

text \<open>The binding map of a match: one node per placeholder of the pattern.\<close>

record pattern_map =
  data_p :: node_id
  fq_node_p :: node_id
  fq_output_low_p :: node_id
  fq_output_high_p :: node_id
  mul_constant_p :: node_id
  mul_node_p :: node_id

text \<open>What an invocation of the callback does: it raises, or returns a flag with the graph.\<close>

datatype 'v outcome = Thrown | Returned bool "'v graph"

subsection \<open>Shapes\<close>

definition shape_size :: "shape \<Rightarrow> nat" where
  "shape_size s = prod_list s"

definition rank :: "partial_shape \<Rightarrow> nat option" where
  "rank ps = (case ps of Rank_dynamic \<Rightarrow> None | Ranked ds \<Rightarrow> Some (length ds))"

fun to_dims :: "dimension list \<Rightarrow> shape option" where
  "to_dims [] = Some []"
| "to_dims (Dynamic # ds) = None"
| "to_dims (Static n # ds) = (case to_dims ds of None \<Rightarrow> None | Some s \<Rightarrow> Some (n # s))"

text \<open>\<^verbatim>\<open>PartialShape::to_shape\<close>: the shape when every dimension is known; it raises otherwise.\<close>

definition to_shape :: "partial_shape \<Rightarrow> shape option" where
  "to_shape ps = (case ps of Rank_dynamic \<Rightarrow> None | Ranked ds \<Rightarrow> to_dims ds)"

definition is_dynamic :: "partial_shape \<Rightarrow> bool" where
  "is_dynamic ps = (to_shape ps = None)"

definition get_shape :: "'v node \<Rightarrow> shape option" where
  "get_shape n = to_shape (output_partial_shape n)"

subsection \<open>The arena\<close>

definition get_node :: "'v graph \<Rightarrow> node_id \<Rightarrow> 'v node option" where
  "get_node g i = (if i < length g then g ! i else None)"

definition add_node :: "'v graph \<Rightarrow> 'v node \<Rightarrow> 'v graph \<times> node_id" where
  "add_node g n = (g @ [Some n], length g)"

definition update_node :: "'v graph \<Rightarrow> node_id \<Rightarrow> ('v node \<Rightarrow> 'v node) \<Rightarrow> 'v graph" where
  "update_node g i f = (if i < length g then g[i := map_option f (g ! i)] else g)"

text \<open>The consumer edges of a node: the pairs (consumer, input slot) that read it.\<close>

definition edges_of :: "node_id \<Rightarrow> node_id \<Rightarrow> 'v node option \<Rightarrow> (node_id \<times> nat) list" where
  "edges_of i j slot =
     (case slot of None \<Rightarrow> []
      | Some n \<Rightarrow> map (\<lambda>k. (j, k)) (filter (\<lambda>k. input_values n ! k = i) [0..<length (input_values n)]))"

definition get_target_inputs :: "'v graph \<Rightarrow> node_id \<Rightarrow> (node_id \<times> nat) list" where
  "get_target_inputs g i = concat (map (\<lambda>j. edges_of i j (g ! j)) [0..<length g])"

definition get_users :: "'v graph \<Rightarrow> node_id \<Rightarrow> node_id list" where
  "get_users g i = map fst (get_target_inputs g i)"

definition is_type :: "node_type \<Rightarrow> 'v graph \<Rightarrow> node_id \<Rightarrow> bool" where
  "is_type t g i = (case get_node g i of None \<Rightarrow> False | Some n \<Rightarrow> node_type n = t)"

subsection \<open>Building nodes\<close>

text \<open>A fresh node: no friendly name of its own yet, an empty metadata bag.\<close>

definition make_node :: "node_type \<Rightarrow> node_id list \<Rightarrow> partial_shape \<Rightarrow> element_type \<Rightarrow> 'v list \<Rightarrow> 'v node" where
  "make_node t ins ps et vs =
     \<lparr>node_type = t, input_values = ins, output_partial_shape = ps, element_type = et,
      friendly_name = [], rt_info = Map.empty, auto_broadcast = NUMPY, data = vs\<rparr>"

definition constant_node :: "element_type \<Rightarrow> shape \<Rightarrow> 'v list \<Rightarrow> 'v node" where
  "constant_node et s vs = make_node Constant [] (Ranked (map Static s)) et vs"

definition infer_node :: "'v env \<Rightarrow> 'v graph \<Rightarrow> 'v node \<Rightarrow> 'v node" where
  "infer_node e g n =
     n\<lparr>output_partial_shape := fst (infer e g n), element_type := snd (infer e g n)\<rparr>"

text \<open>
  \<^verbatim>\<open>clone_with_new_inputs\<close>: the same operation and attributes over other inputs, as a new
  node with its shape inferred again.
\<close>

definition clone_with_new_inputs :: "'v env \<Rightarrow> 'v graph \<Rightarrow> 'v node \<Rightarrow> node_id list \<Rightarrow> 'v node" where
  "clone_with_new_inputs e g n ins =
     infer_node e g (n\<lparr>input_values := ins, friendly_name := [], rt_info := Map.empty\<rparr>)"

text \<open>
  Modelled from the spec: \<^verbatim>\<open>op::util::get_single_value\<close> is not part of the rule's file.
  The spec has it prove that all elements of the constant are equal and give that value;
  the rule receives the value in a variable of type \<^verbatim>\<open>float\<close> (line 67).
\<close>

definition get_single_value :: "'v env \<Rightarrow> 'v node \<Rightarrow> 'v option" where
  "get_single_value e c =
     (case data c of [] \<Rightarrow> None
      | v # vs \<Rightarrow> if list_all (\<lambda>x. x = v) vs then Some (to_float e v) else None)"

text \<open>
  Modelled from the spec: \<^verbatim>\<open>copy_runtime_info\<close> is not part of the rule's file. The spec
  has the metadata bag map keys to values, and has the bag of each source merged into the
  destination: in the order of the sources, a key of a source takes the value the source
  gives it, and a key that only the destination carries keeps its value.
\<close>

definition copy_runtime_info :: "'v node list \<Rightarrow> 'v node \<Rightarrow> 'v node" where
  "copy_runtime_info srcs dst =
     dst\<lparr>rt_info := foldl (\<lambda>bag src. bag ++ rt_info src) (rt_info dst) srcs\<rparr>"

definition set_friendly_name :: "string \<Rightarrow> 'v node \<Rightarrow> 'v node" where
  "set_friendly_name s n = n\<lparr>friendly_name := s\<rparr>"

text \<open>
  Modelled from the spec: \<^verbatim>\<open>replace_node\<close> is not part of the rule's file. The spec has
  every consumer edge of the old node point at the new node afterwards.
\<close>

definition redirect :: "node_id \<Rightarrow> node_id \<Rightarrow> 'v node \<Rightarrow> 'v node" where
  "redirect target replacement n =
     n\<lparr>input_values := map (\<lambda>i. if i = target then replacement else i) (input_values n)\<rparr>"

definition replace_node :: "'v graph \<Rightarrow> node_id \<Rightarrow> node_id \<Rightarrow> 'v graph" where
  "replace_node g target replacement = map (map_option (redirect target replacement)) g"

text \<open>
  Modelled from the spec: the constant folder behind \<^verbatim>\<open>get_constant_from_source\<close> is not
  part of the rule's file. The spec has it evaluate a node whose inputs are all compile-time
  constants. The fuel bounds the depth of the walk; one more than the number of nodes is
  enough for any acyclic graph.
\<close>

fun evaluate_if_constant :: "'v env \<Rightarrow> 'v graph \<Rightarrow> nat \<Rightarrow> 'v node \<Rightarrow> (shape \<times> 'v list) option" where
  "evaluate_if_constant e g 0 n = None"
| "evaluate_if_constant e g (Suc k) n =
     (if node_type n = Constant then map_option (\<lambda>s. (s, data n)) (get_shape n)
      else if node_type n = Multiply then
        (case input_values n of
           [a, b] \<Rightarrow>
             (case Option.bind (get_node g a) (evaluate_if_constant e g k) of
                None \<Rightarrow> None
              | Some x \<Rightarrow>
                 (case Option.bind (get_node g b) (evaluate_if_constant e g k) of
                    None \<Rightarrow> None
                  | Some y \<Rightarrow> Some (tensor_multiply e x y)))
         | _ \<Rightarrow> None)
      else if node_type n = Reshape then
        (case input_values n of
           [a, b] \<Rightarrow>
             (case Option.bind (get_node g a) (evaluate_if_constant e g k) of
                None \<Rightarrow> None
              | Some x \<Rightarrow>
                 (case Option.bind (get_node g b) (evaluate_if_constant e g k) of
                    None \<Rightarrow> None
                  | Some y \<Rightarrow> Some (tensor_reshape e x y)))
         | _ \<Rightarrow> None)
      else None)"

definition get_constant_from_source :: "'v env \<Rightarrow> 'v graph \<Rightarrow> 'v node \<Rightarrow> 'v node option" where
  "get_constant_from_source e g n =
     map_option (\<lambda>t. constant_node (element_type n) (fst t) (snd t))
       (evaluate_if_constant e g (Suc (length g)) n)"

text \<open>
  When the callback returns, the nodes it created and that nothing reads are destroyed with
  its local references, the newest first.
\<close>

definition release :: "'v graph \<Rightarrow> node_id \<Rightarrow> 'v graph" where
  "release g i = (if get_users g i = [] \<and> i < length g then g[i := None] else g)"

definition sweep :: "nat \<Rightarrow> 'v graph \<Rightarrow> 'v graph" where
  "sweep n g = foldl release g (rev [n..<length g])"

section \<open>The callback of the rule\<close>

text \<open>
  Lines 63 to 77: a scale of one element is taken as it is; a Constant whose elements are
  all equal is replaced by a new Constant of shape \<open>[1]\<close>, filled with the
  \<^verbatim>\<open>float\<close> converted to the element type. The result is the graph, the scale node, its
  shape and \<^verbatim>\<open>is_single_value\<close>.
\<close>

definition normalize_scale ::
  "'v env \<Rightarrow> 'v graph \<Rightarrow> node_id \<Rightarrow> 'v node \<Rightarrow> shape
     \<Rightarrow> 'v graph \<times> node_id \<times> shape \<times> bool" where
  "normalize_scale e g mul_constant c mul_constant_shape =
     (if shape_size mul_constant_shape = 1 then (g, mul_constant, mul_constant_shape, True)
      else if node_type c = Constant then
        (case get_single_value e c of
           Some v \<Rightarrow>
             (case add_node g (constant_node (element_type c) [1] [from_float e (element_type c) v]) of
                (g1, k) \<Rightarrow> (g1, k, [1], True))
         | None \<Rightarrow> (g, mul_constant, mul_constant_shape, False))
      else (g, mul_constant, mul_constant_shape, False))"

definition fq_output_is_conv :: "'v graph \<Rightarrow> node_id \<Rightarrow> bool" where
  "fq_output_is_conv g fq_node =
     list_ex (\<lambda>u. is_type Convolution g u \<or> is_type GroupConvolution g u) (get_users g fq_node)"

text \<open>
  \<^verbatim>\<open>std::vector<size_t>::max_size()\<close> of the common 64-bit standard libraries; an insertion
  beyond it raises \<^verbatim>\<open>std::length_error\<close>.
\<close>

definition vector_max_size :: nat where
  "vector_max_size = 2 ^ 60 - 1"

datatype 'v aligned = Throw | Reject | Proceed "'v graph" node_id

text \<open>
  Lines 79 to 102, for a scale that is not a single value. \<^verbatim>\<open>rank\<close> is a signed 64-bit
  integer and \<^verbatim>\<open>mul_constant_shape.size()\<close> an unsigned one, so \<^verbatim>\<open>diff\<close> is their
  difference as an unsigned 64-bit integer: the difference modulo \<open>2 ^ 64\<close>.
\<close>

definition align_scale ::
  "'v env \<Rightarrow> 'v graph \<Rightarrow> node_id \<Rightarrow> 'v node \<Rightarrow> node_id \<Rightarrow> shape \<Rightarrow> 'v aligned" where
  "align_scale e g fq_node d mul_constant mul_constant_shape =
     (if fq_output_is_conv g fq_node then Reject
      else case rank (output_partial_shape d) of
        None \<Rightarrow> Reject
      | Some r \<Rightarrow>
         (let diff = nat ((int r - int (length mul_constant_shape)) mod 2 ^ 64)
          in if 0 < diff then
               (if vector_max_size < length mul_constant_shape + diff then Throw
                else
                  (let padded = replicate diff 1 @ mul_constant_shape
                   in case add_node g (constant_node i64 [length padded] (map (index_value e) padded)) of
                     (g1, pattern) \<Rightarrow>
                       (case add_node g1 (infer_node e g1
                               (make_node Reshape [mul_constant, pattern] Rank_dynamic i64 [])) of
                          (g2, reshaped) \<Rightarrow> Proceed g2 reshaped)))
             else Proceed g mul_constant))"

text \<open>Lines 104 to 111: the range bound times the scale, folded when it is constant.\<close>

definition get_adjusted_output_range ::
  "'v env \<Rightarrow> 'v graph \<Rightarrow> node_id \<Rightarrow> node_id \<Rightarrow> 'v node \<Rightarrow> 'v graph \<times> node_id" where
  "get_adjusted_output_range e g mul_constant i n =
     (let ret = copy_runtime_info [n]
                  (infer_node e g (make_node Multiply [i, mul_constant] Rank_dynamic (element_type n) []))
      in case get_constant_from_source e g ret of
           Some constant \<Rightarrow> add_node g constant
         | None \<Rightarrow> add_node g ret)"

text \<open>Lines 143 to 146, and the release of the callback's local references at its return.\<close>

definition commit :: "'v graph \<Rightarrow> 'v graph \<Rightarrow> node_id \<Rightarrow> node_id \<Rightarrow> 'v node \<Rightarrow> 'v node \<Rightarrow> 'v graph" where
  "commit g0 g mul_node new_fq_node fq mul =
     sweep (length g0)
       (update_node
          (update_node (replace_node g mul_node new_fq_node) new_fq_node
             (set_friendly_name (friendly_name mul)))
          new_fq_node (copy_runtime_info [fq, mul]))"

text \<open>Lines 122 to 148: the shape check under NUMPY broadcasting, then the substitution.\<close>

definition check_and_commit ::
  "'v graph \<Rightarrow> 'v graph \<Rightarrow> pattern_map \<Rightarrow> 'v node \<Rightarrow> node_id \<Rightarrow> 'v node \<Rightarrow> 'v outcome" where
  "check_and_commit g0 g m fq new_fq_node new_fq =
     (case get_node g0 (mul_node_p m) of
        None \<Rightarrow> Thrown
      | Some mul \<Rightarrow>
         if node_type new_fq \<noteq> FakeQuantize then Returned False g0
         else if auto_broadcast new_fq = NUMPY \<and>
                 (is_dynamic (output_partial_shape new_fq) \<or> is_dynamic (output_partial_shape mul))
           then Returned False g0
         else if auto_broadcast new_fq = NUMPY \<and> get_shape new_fq \<noteq> get_shape mul
           then Returned False g0
         else Returned True (commit g0 g (mul_node_p m) new_fq_node fq mul))"

text \<open>
  Lines 113 to 117: the replacement node, a clone of the FakeQuantize over its first three
  inputs and the two adjusted ranges, evaluated from left to right.
\<close>

definition build_new_fq ::
  "'v env \<Rightarrow> 'v graph \<Rightarrow> pattern_map \<Rightarrow> 'v node \<Rightarrow> 'v node \<Rightarrow> 'v node \<Rightarrow> node_id
     \<Rightarrow> ('v graph \<times> node_id \<times> 'v node) option" where
  "build_new_fq e g m fq lo hi mul_constant =
     (case input_values fq of
        i0 # i1 # i2 # rest \<Rightarrow>
          (case get_adjusted_output_range e g mul_constant (fq_output_low_p m) lo of
             (g3, low) \<Rightarrow>
               (case get_adjusted_output_range e g3 mul_constant (fq_output_high_p m) hi of
                  (g4, high) \<Rightarrow>
                    (let new_fq = clone_with_new_inputs e g4 fq [i0, i1, i2, low, high]
                     in case add_node g4 new_fq of (g5, new_fq_node) \<Rightarrow> Some (g5, new_fq_node, new_fq))))
      | _ \<Rightarrow> None)"

text \<open>Lines 118 to 120: the acceptance hook, asked unless the data is a Constant.\<close>

definition fuse ::
  "'v env \<Rightarrow> 'v graph \<Rightarrow> 'v graph \<Rightarrow> pattern_map \<Rightarrow> 'v node \<Rightarrow> 'v node \<Rightarrow> 'v node \<Rightarrow> 'v node
     \<Rightarrow> node_id \<Rightarrow> 'v outcome" where
  "fuse e g0 g m d fq lo hi mul_constant =
     (case build_new_fq e g m fq lo hi mul_constant of
        None \<Rightarrow> Thrown
      | Some (g5, new_fq_node, new_fq) \<Rightarrow>
          if node_type d \<noteq> Constant \<and> transformation_callback e g5 new_fq_node then Returned False g0
          else check_and_commit g0 g5 m fq new_fq_node new_fq)"

text \<open>Lines 55 to 62: the bound nodes, looked up in the binding map.\<close>

definition bound_nodes ::
  "'v graph \<Rightarrow> pattern_map \<Rightarrow> ('v node \<times> 'v node \<times> 'v node \<times> 'v node \<times> 'v node) option" where
  "bound_nodes g m =
     Option.bind (get_node g (data_p m)) (\<lambda>d.
     Option.bind (get_node g (fq_node_p m)) (\<lambda>fq.
     Option.bind (get_node g (fq_output_low_p m)) (\<lambda>lo.
     Option.bind (get_node g (fq_output_high_p m)) (\<lambda>hi.
     Option.bind (get_node g (mul_constant_p m)) (\<lambda>c. Some (d, fq, lo, hi, c))))))"

text \<open>Lines 63 to 102: the scale the ranges are multiplied by, or the early exit.\<close>

definition prepare_scale :: "'v env \<Rightarrow> 'v graph \<Rightarrow> pattern_map \<Rightarrow> 'v node \<Rightarrow> 'v node \<Rightarrow> 'v aligned" where
  "prepare_scale e g m d c =
     (case get_shape c of
        None \<Rightarrow> Throw
      | Some s \<Rightarrow>
         (case normalize_scale e g (mul_constant_p m) c s of
            (g1, mul_constant, mul_constant_shape, is_single_value) \<Rightarrow>
              if is_single_value then Proceed g1 mul_constant
              else align_scale e g1 (fq_node_p m) d mul_constant mul_constant_shape))"

text \<open>
  The callback. The matcher binds live nodes, a Constant has a static shape and a
  FakeQuantize five inputs; for a binding that is not so, where the source would read
  through an invalid reference, the model raises.
\<close>

definition callback :: "'v env \<Rightarrow> 'v graph \<Rightarrow> pattern_map \<Rightarrow> 'v outcome" where
  "callback e g m =
     (case bound_nodes g m of
        None \<Rightarrow> Thrown
      | Some (d, fq, lo, hi, c) \<Rightarrow>
         (case prepare_scale e g m d c of
            Throw \<Rightarrow> Thrown
          | Reject \<Rightarrow> Returned False g
          | Proceed g2 mul_constant \<Rightarrow> fuse e g g2 m d fq lo hi mul_constant))"

text \<open>The flag an invocation returns, when it returns.\<close>

definition returned :: "'v outcome \<Rightarrow> bool option" where
  "returned r = (case r of Thrown \<Rightarrow> None | Returned b g \<Rightarrow> Some b)"

text \<open>The node a name stands for once an invocation has returned, and an entry of a bag.\<close>

definition node_after :: "'v outcome \<Rightarrow> node_id \<Rightarrow> 'v node option" where
  "node_after r i = (case r of Thrown \<Rightarrow> None | Returned b g \<Rightarrow> get_node g i)"

definition annotation :: "'v node option \<Rightarrow> string \<Rightarrow> string option" where
  "annotation n k = (case n of None \<Rightarrow> None | Some x \<Rightarrow> rt_info x k)"

section \<open>The pattern\<close>

text \<open>
  Modelled from the spec: the matcher is not part of the rule's file, only the pattern of
  lines 42 to 52 is. The spec has the consumer-count predicate hold of a node with exactly
  that many consumer edges, and a typed pattern node match a node of that type whose inputs
  match; the inputs of a commutative operation match in either order.
\<close>

definition consumers_count :: "nat \<Rightarrow> 'v graph \<Rightarrow> node_id \<Rightarrow> bool" where
  "consumers_count n g i = (length (get_target_inputs g i) = n)"

definition input_ids :: "'v graph \<Rightarrow> node_id \<Rightarrow> node_id list" where
  "input_ids g i = (case get_node g i of None \<Rightarrow> [] | Some n \<Rightarrow> input_values n)"

definition matches :: "'v graph \<Rightarrow> pattern_map \<Rightarrow> bool" where
  "matches g m =
     (is_type Multiply g (mul_node_p m) \<and> consumers_count 1 g (mul_node_p m) \<and>
      (input_ids g (mul_node_p m) = [fq_node_p m, mul_constant_p m] \<or>
       input_ids g (mul_node_p m) = [mul_constant_p m, fq_node_p m]) \<and>
      is_type Constant g (mul_constant_p m) \<and>
      is_type FakeQuantize g (fq_node_p m) \<and> consumers_count 1 g (fq_node_p m) \<and>
      length (input_ids g (fq_node_p m)) = 5 \<and>
      input_ids g (fq_node_p m) ! 0 = data_p m \<and>
      input_ids g (fq_node_p m) ! 3 = fq_output_low_p m \<and>
      input_ids g (fq_node_p m) ! 4 = fq_output_high_p m \<and>
      get_node g (data_p m) \<noteq> None \<and>
      get_node g (fq_output_low_p m) \<noteq> None \<and> get_node g (fq_output_high_p m) \<noteq> None)"

section \<open>Example graphs\<close>

text \<open>
  An environment for the examples: the hook answers \<open>veto\<close>; a node is given the shape and
  type of its first input, which is what the library infers for a FakeQuantize and for a
  product by a one-element constant; the product kernel scales by the first element of its
  second argument. The tensors of the examples hold whole numbers: the conversion to
  \<^verbatim>\<open>float\<close> rounds to 24 significant bits, to the nearest and to even on a tie, and a
  whole \<^verbatim>\<open>float\<close> is an element of every floating-point type.
\<close>

fun bit_length :: "nat \<Rightarrow> nat" where
  "bit_length n = (if n = 0 then 0 else Suc (bit_length (n div 2)))"

declare bit_length.simps [simp del]

definition single_precision :: "int \<Rightarrow> int" where
  "single_precision x =
     (let n = nat \<bar>x\<bar>; k = bit_length n - 24; q = n div 2 ^ k; r = n mod 2 ^ k
      in if 2 * r < 2 ^ k \<or> (2 * r = 2 ^ k \<and> even q) then sgn x * int (q * 2 ^ k)
         else sgn x * int ((q + 1) * 2 ^ k))"

definition example_env :: "bool \<Rightarrow> int env" where
  "example_env veto =
     \<lparr>transformation_callback = (\<lambda>g i. veto),
      infer = (\<lambda>g n. case input_values n of
                 [] \<Rightarrow> (Rank_dynamic, f32)
               | a # r \<Rightarrow> (case get_node g a of
                             None \<Rightarrow> (Rank_dynamic, f32)
                           | Some x \<Rightarrow> (output_partial_shape x, element_type x))),
      tensor_multiply = (\<lambda>x y. (fst x, map (\<lambda>v. v * hd (snd y)) (snd x))),
      tensor_reshape = (\<lambda>x y. (map nat (snd y), snd x)),
      index_value = int,
      to_float = single_precision,
      from_float = (\<lambda>t x. x)\<rparr>"

definition example_node ::
  "node_type \<Rightarrow> node_id list \<Rightarrow> dimension list \<Rightarrow> string \<Rightarrow> int list \<Rightarrow> int node" where
  "example_node t ins ds name vs =
     (make_node t ins (Ranked ds) f32 vs)\<lparr>friendly_name := name, rt_info := [''name'' \<mapsto> name, name \<mapsto> ''seen'']\<rparr>"

text \<open>
  The end-to-end scenario of the spec: data of shape \<open>[1,3,8,8]\<close>, output range
  \<open>[0]\<close> to \<open>[1]\<close>, a scale given by its shape and values, and one consumer reading
  the Multiply.
\<close>

definition example_graph :: "node_type \<Rightarrow> dimension list \<Rightarrow> int list \<Rightarrow> int graph" where
  "example_graph data_type scale_dims scale =
     [Some (example_node data_type [] [Static 1, Static 3, Static 8, Static 8] ''data'' []),
      Some (example_node Constant [] [Static 1] ''in_low'' [0]),
      Some (example_node Constant [] [Static 1] ''in_high'' [1]),
      Some (example_node Constant [] [Static 1] ''out_low'' [0]),
      Some (example_node Constant [] [Static 1] ''out_high'' [1]),
      Some (example_node FakeQuantize [0, 1, 2, 3, 4] [Static 1, Static 3, Static 8, Static 8] ''fq'' []),
      Some (example_node Constant [] scale_dims ''scale'' scale),
      Some (example_node Multiply [5, 6] [Static 1, Static 3, Static 8, Static 8] ''mul'' []),
      Some (example_node Other [7] [Static 1, Static 3, Static 8, Static 8] ''result'' [])]"

definition example_match :: pattern_map where
  "example_match =
     \<lparr>data_p = 0, fq_node_p = 5, fq_output_low_p = 3, fq_output_high_p = 4,
      mul_constant_p = 6, mul_node_p = 7\<rparr>"

text \<open>The same with a Convolution reading the FakeQuantize beside the Multiply.\<close>

definition conv_graph :: "int graph" where
  "conv_graph =
     example_graph Other [Static 1, Static 3, Static 1, Static 1] [2, 3, 4] @
     [Some (example_node Convolution [5, 1] [Static 1, Static 3, Static 8, Static 8] ''conv'' [])]"

text \<open>The same with data of unknown rank.\<close>

definition unknown_rank_graph :: "int graph" where
  "unknown_rank_graph =
     (example_graph Other [Static 3, Static 1, Static 1] [2, 3, 4])
       [0 := Some ((example_node Other [] [] ''data'' [])\<lparr>output_partial_shape := Rank_dynamic\<rparr>)]"

text \<open>
  A FakeQuantize with the strict broadcast policy over data of shape \<open>[?,2]\<close>: its ranges
  have the shape \<open>[1,2]\<close>, and the Multiply scales by a one-element constant.
\<close>

definition strict_graph :: "int graph" where
  "strict_graph =
     [Some (example_node Other [] [Dynamic, Static 2] ''data'' []),
      Some (example_node Constant [] [Static 1, Static 2] ''in_low'' [0, 0]),
      Some (example_node Constant [] [Static 1, Static 2] ''in_high'' [1, 1]),
      Some (example_node Constant [] [Static 1, Static 2] ''out_low'' [0, 0]),
      Some (example_node Constant [] [Static 1, Static 2] ''out_high'' [1, 1]),
      Some ((example_node FakeQuantize [0, 1, 2, 3, 4] [Dynamic, Static 2] ''fq'' [])
              \<lparr>auto_broadcast := NONE\<rparr>),
      Some (example_node Constant [] [Static 1] ''scale'' [2]),
      Some (example_node Multiply [5, 6] [Dynamic, Static 2] ''mul'' []),
      Some (example_node Other [7] [Dynamic, Static 2] ''result'' [])]"

text \<open>The replacement node an invocation builds, when it gets that far.\<close>

definition replacement :: "'v env \<Rightarrow> 'v graph \<Rightarrow> pattern_map \<Rightarrow> 'v node option" where
  "replacement e g m =
     (case bound_nodes g m of
        None \<Rightarrow> None
      | Some (d, fq, lo, hi, c) \<Rightarrow>
         (case prepare_scale e g m d c of
            Proceed g2 mul_constant \<Rightarrow>
              map_option (\<lambda>r. snd (snd r)) (build_new_fq e g2 m fq lo hi mul_constant)
          | _ \<Rightarrow> None))"

text \<open>
  A scale of shape \<open>[2,1,1,1]\<close>: the Multiply broadcasts its output to \<open>[2,3,8,8]\<close>.
\<close>

definition broadcast_graph :: "int graph" where
  "broadcast_graph =
     (example_graph Other [Static 2, Static 1, Static 1, Static 1] [2, 3])
       [7 := Some (example_node Multiply [5, 6] [Static 2, Static 3, Static 8, Static 8] ''mul'' []),
        8 := Some (example_node Other [7] [Static 2, Static 3, Static 8, Static 8] ''result'' [])]"

text \<open>A scale of rank 5 over data of rank 4.\<close>

definition overflow_graph :: "int graph" where
  "overflow_graph =
     (example_graph Other [Static 2, Static 1, Static 1, Static 1, Static 1] [2, 3])
       [7 := Some (example_node Multiply [5, 6] [Static 2, Static 1, Static 3, Static 8, Static 8] ''mul'' []),
        8 := Some (example_node Other [7] [Static 2, Static 1, Static 3, Static 8, Static 8] ''result'' [])]"




section \<open>The guards for a scale of several values\<close>

lemma normalize_scale_multi:
  assumes "shape_size s \<noteq> 1" "get_single_value e c = None"
  shows "normalize_scale e g i c s = (g, i, s, False)"
  using assms by (simp add: normalize_scale_def)

lemma prepare_scale_multi:
  assumes "get_shape c = Some s" "shape_size s \<noteq> 1" "get_single_value e c = None"
  shows "prepare_scale e g m d c = align_scale e g (fq_node_p m) d (mul_constant_p m) s"
  using assms by (simp add: prepare_scale_def normalize_scale_multi)

text \<open>
  Claim C4. When the scale has several elements that are not all equal and some consumer of
  the FakeQuantize node is a Convolution or a GroupConvolution, the callback returns false
  and the graph is the one it was given.
\<close>

theorem convolution_guard:
  assumes "bound_nodes g m = Some (d, fq, lo, hi, c)"
    and "get_shape c = Some s" and "shape_size s \<noteq> 1" and "get_single_value e c = None"
    and "u \<in> set (get_users g (fq_node_p m))"
    and "is_type Convolution g u \<or> is_type GroupConvolution g u"
  shows "callback e g m = Returned False g"
proof -
  have "fq_output_is_conv g (fq_node_p m)"
    using assms(5,6) unfolding fq_output_is_conv_def list_ex_iff by blast
  then have "prepare_scale e g m d c = Reject"
    using assms(2,3,4) by (simp add: prepare_scale_multi align_scale_def)
  then show ?thesis
    using assms(1) by (simp add: callback_def)
qed

text \<open>
  Claim C6. When the scale has several elements that are not all equal and the rank of the
  data input is unknown, the callback returns false and the graph is the one it was given.
\<close>

theorem unknown_rank_guard:
  assumes "bound_nodes g m = Some (d, fq, lo, hi, c)"
    and "get_shape c = Some s" and "shape_size s \<noteq> 1" and "get_single_value e c = None"
    and "rank (output_partial_shape d) = None"
  shows "callback e g m = Returned False g"
proof -
  have "prepare_scale e g m d c = Reject"
    using assms(2,3,4,5) by (simp add: prepare_scale_multi align_scale_def)
  then show ?thesis
    using assms(1) by (simp add: callback_def)
qed

text \<open>
  The Convolution guard at the example with a Convolution beside the Multiply.
\<close>

theorem convolution_guard_witness:
  "callback (example_env False) conv_graph example_match = Returned False conv_graph"
proof -
  let ?c = "example_node Constant [] [Static 1, Static 3, Static 1, Static 1] ''scale'' [2, 3, 4]"
  have b: "bound_nodes conv_graph example_match =
      Some (example_node Other [] [Static 1, Static 3, Static 8, Static 8] ''data'' [],
            example_node FakeQuantize [0, 1, 2, 3, 4] [Static 1, Static 3, Static 8, Static 8] ''fq'' [],
            example_node Constant [] [Static 1] ''out_low'' [0],
            example_node Constant [] [Static 1] ''out_high'' [1], ?c)"
    by (simp add: bound_nodes_def get_node_def conv_graph_def example_graph_def example_match_def)
  have s: "get_shape ?c = Some [1, 3, 1, 1]"
    by (simp add: get_shape_def to_shape_def example_node_def make_node_def)
  have n: "shape_size [1, 3, 1, 1] \<noteq> 1"
    by (simp add: shape_size_def)
  have v: "get_single_value (example_env False) ?c = None"
    by (simp add: get_single_value_def example_node_def make_node_def)
  have u: "9 \<in> set (get_users conv_graph (fq_node_p example_match))"
    by (simp add: get_users_def get_target_inputs_def edges_of_def conv_graph_def example_graph_def
        example_match_def example_node_def make_node_def upt_rec_numeral)
  have t: "is_type Convolution conv_graph 9 \<or> is_type GroupConvolution conv_graph 9"
    by (simp add: is_type_def get_node_def conv_graph_def example_graph_def example_node_def make_node_def)
  show ?thesis
    by (rule convolution_guard [OF b s n v u t])
qed

text \<open>
  The rank guard at the example with data of unknown rank.
\<close>

theorem unknown_rank_guard_witness:
  "callback (example_env False) unknown_rank_graph example_match = Returned False unknown_rank_graph"
proof -
  let ?c = "example_node Constant [] [Static 3, Static 1, Static 1] ''scale'' [2, 3, 4]"
  let ?d = "(example_node Other [] [] ''data'' [])\<lparr>output_partial_shape := Rank_dynamic\<rparr>"
  have b: "bound_nodes unknown_rank_graph example_match =
      Some (?d, example_node FakeQuantize [0, 1, 2, 3, 4] [Static 1, Static 3, Static 8, Static 8] ''fq'' [],
            example_node Constant [] [Static 1] ''out_low'' [0],
            example_node Constant [] [Static 1] ''out_high'' [1], ?c)"
    by (simp add: bound_nodes_def get_node_def unknown_rank_graph_def example_graph_def example_match_def)
  have s: "get_shape ?c = Some [3, 1, 1]"
    by (simp add: get_shape_def to_shape_def example_node_def make_node_def)
  have n: "shape_size [3, 1, 1] \<noteq> 1"
    by (simp add: shape_size_def)
  have v: "get_single_value (example_env False) ?c = None"
    by (simp add: get_single_value_def example_node_def make_node_def)
  have r: "rank (output_partial_shape ?d) = None"
    by (simp add: rank_def)
  show ?thesis
    by (rule unknown_rank_guard [OF b s n v r])
qed

lemma fuse_rejects:
  assumes "build_new_fq e g2 m fq lo hi k = Some (g5, i, new_fq)"
    and "get_node g (mul_node_p m) = Some mul"
    and "auto_broadcast new_fq = NUMPY"
    and "is_dynamic (output_partial_shape new_fq) \<or> is_dynamic (output_partial_shape mul) \<or>
         get_shape new_fq \<noteq> get_shape mul"
  shows "fuse e g g2 m d fq lo hi k = Returned False g"
  using assms by (auto simp add: fuse_def check_and_commit_def)

text \<open>
  Claim C1, as amended. The shape check of lines 133 to 141 is made when the broadcast policy
  of the replacement is NUMPY: then the callback returns false, with the graph it was given,
  whenever the output shape of the replacement or of the Multiply is not fully known, or both
  are known and differ.
\<close>

theorem numpy_shape_guard:
  assumes "bound_nodes g m = Some (d, fq, lo, hi, c)"
    and "prepare_scale e g m d c = Proceed g2 k"
    and "build_new_fq e g2 m fq lo hi k = Some (g5, i, new_fq)"
    and "get_node g (mul_node_p m) = Some mul"
    and "auto_broadcast new_fq = NUMPY"
    and "is_dynamic (output_partial_shape new_fq) \<or> is_dynamic (output_partial_shape mul) \<or>
         get_shape new_fq \<noteq> get_shape mul"
  shows "callback e g m = Returned False g"
  using assms(1,2) fuse_rejects [OF assms(3,4,5,6)] by (simp add: callback_def)

lemma evaluate_hook:
  "evaluate_if_constant (e\<lparr>transformation_callback := h\<rparr>) g k = evaluate_if_constant e g k"
proof (induction k)
  case 0
  show ?case by (rule ext) simp
next
  case (Suc k)
  show ?case by (rule ext) (simp add: Suc cong: list.case_cong option.case_cong)
qed

lemma get_adjusted_output_range_hook:
  "get_adjusted_output_range (e\<lparr>transformation_callback := h\<rparr>) g k i n =
   get_adjusted_output_range e g k i n"
  by (simp add: get_adjusted_output_range_def get_constant_from_source_def infer_node_def evaluate_hook)

lemma build_new_fq_hook:
  "build_new_fq (e\<lparr>transformation_callback := h\<rparr>) g m fq lo hi k = build_new_fq e g m fq lo hi k"
  by (simp add: build_new_fq_def get_adjusted_output_range_hook clone_with_new_inputs_def infer_node_def
      cong: list.case_cong prod.case_cong)

lemma align_scale_hook:
  "align_scale (e\<lparr>transformation_callback := h\<rparr>) g f d k s = align_scale e g f d k s"
  by (simp add: align_scale_def infer_node_def Let_def split: option.split)

lemma normalize_scale_hook:
  "normalize_scale (e\<lparr>transformation_callback := h\<rparr>) g i c s = normalize_scale e g i c s"
  by (simp add: normalize_scale_def get_single_value_def split: list.split option.split)

lemma prepare_scale_hook:
  "prepare_scale (e\<lparr>transformation_callback := h\<rparr>) g m d c = prepare_scale e g m d c"
  by (simp add: prepare_scale_def align_scale_hook normalize_scale_hook split: option.split prod.split)

text \<open>
  Claim C10. Once the replacement is built, the data input decides whether the hook is
  asked: over data that is not a Constant the hook is given the replacement, and its veto
  makes the callback return false with the graph it was given; over Constant data the
  outcome is that of the remaining checks whatever hook \<open>h\<close> is installed.
\<close>

theorem acceptance_hook:
  assumes "bound_nodes g m = Some (d, fq, lo, hi, c)"
    and "prepare_scale e g m d c = Proceed g2 k"
    and "build_new_fq e g2 m fq lo hi k = Some (g5, i, new_fq)"
  shows "callback (e\<lparr>transformation_callback := h\<rparr>) g m =
           (if node_type d \<noteq> Constant \<and> h g5 i then Returned False g
            else check_and_commit g g5 m fq i new_fq)"
  using assms by (simp add: callback_def fuse_def prepare_scale_hook build_new_fq_hook)

lemmas example_simps =
  example_env_def example_node_def example_graph_def example_match_def make_node_def

lemmas rule_simps =
  bound_nodes_def get_node_def prepare_scale_def get_shape_def to_shape_def shape_size_def
  normalize_scale_def get_single_value_def align_scale_def fq_output_is_conv_def get_users_def
  get_target_inputs_def edges_of_def is_type_def rank_def vector_max_size_def add_node_def
  constant_node_def infer_node_def build_new_fq_def get_adjusted_output_range_def
  copy_runtime_info_def get_constant_from_source_def clone_with_new_inputs_def Let_def

text \<open>
  The shape check at the example whose Multiply broadcasts to \<open>[2,3,8,8]\<close> while the
  replacement keeps the shape \<open>[1,3,8,8]\<close> of the data.
\<close>

theorem numpy_shape_guard_witness:
  "callback (example_env False) broadcast_graph example_match = Returned False broadcast_graph"
proof -
  let ?e = "example_env False"
  let ?d = "example_node Other [] [Static 1, Static 3, Static 8, Static 8] ''data'' []"
  let ?fq = "example_node FakeQuantize [0, 1, 2, 3, 4] [Static 1, Static 3, Static 8, Static 8] ''fq'' []"
  let ?lo = "example_node Constant [] [Static 1] ''out_low'' [0]"
  let ?hi = "example_node Constant [] [Static 1] ''out_high'' [1]"
  let ?c = "example_node Constant [] [Static 2, Static 1, Static 1, Static 1] ''scale'' [2, 3]"
  let ?mul = "example_node Multiply [5, 6] [Static 2, Static 3, Static 8, Static 8] ''mul'' []"
  have b: "bound_nodes broadcast_graph example_match = Some (?d, ?fq, ?lo, ?hi, ?c)"
    by (simp add: bound_nodes_def get_node_def broadcast_graph_def example_graph_def example_match_def)
  have p: "prepare_scale ?e broadcast_graph example_match ?d ?c = Proceed broadcast_graph 6"
    by (simp add: rule_simps example_simps broadcast_graph_def)
  have "\<exists>g5 i n. build_new_fq ?e broadcast_graph example_match ?fq ?lo ?hi 6 = Some (g5, i, n) \<and>
          auto_broadcast n = NUMPY \<and> get_shape n = Some [1, 3, 8, 8]"
    by (simp add: rule_simps example_simps broadcast_graph_def)
  then obtain g5 i n where f: "build_new_fq ?e broadcast_graph example_match ?fq ?lo ?hi 6 = Some (g5, i, n)"
    and a: "auto_broadcast n = NUMPY" and s: "get_shape n = Some [1, 3, 8, 8]"
    by blast
  have m: "get_node broadcast_graph (mul_node_p example_match) = Some ?mul"
    by (simp add: get_node_def broadcast_graph_def example_graph_def example_match_def)
  have "get_shape ?mul = Some [2, 3, 8, 8]"
    by (simp add: get_shape_def to_shape_def example_node_def make_node_def)
  with s have x: "is_dynamic (output_partial_shape n) \<or> is_dynamic (output_partial_shape ?mul) \<or>
      get_shape n \<noteq> get_shape ?mul"
    by simp
  show ?thesis
    by (rule numpy_shape_guard [OF b p f m a x])
qed


lemmas commit_simps =
  callback_def fuse_def check_and_commit_def is_dynamic_def commit_def sweep_def release_def
  update_node_def replace_node_def redirect_def set_friendly_name_def returned_def replacement_def

lemmas match_simps = matches_def consumers_count_def input_ids_def

text \<open>
  Claim C1 as stated fails. The example is a match under the strict policy NONE, the output
  shape of its replacement is not fully known, and the callback returns true.
\<close>

theorem strict_policy_counterexample:
  "matches strict_graph example_match \<and>
   map_option auto_broadcast (replacement (example_env False) strict_graph example_match) = Some NONE \<and>
   map_option (is_dynamic \<circ> output_partial_shape)
     (replacement (example_env False) strict_graph example_match) = Some True \<and>
   returned (callback (example_env False) strict_graph example_match) = Some True"
  by (simp add: rule_simps commit_simps match_simps example_simps strict_graph_def)

text \<open>
  Claim C2. On a match whose scale has more axes than the data, \<^verbatim>\<open>diff\<close> wraps around to
  a number close to \<open>2 ^ 64\<close>, the test \<^verbatim>\<open>diff > 0\<close> succeeds and the insertion of
  that many axes raises: the callback returns neither true nor false.
\<close>

theorem rank_overflow_throws:
  "matches overflow_graph example_match \<and>
   callback (example_env False) overflow_graph example_match = Thrown"
  by (simp add: rule_simps commit_simps match_simps example_simps overflow_graph_def)


text \<open>
  The hook at the end-to-end scenario of the spec, with a hook that vetoes.
\<close>

theorem acceptance_hook_witness:
  "callback (example_env True) (example_graph Other [Static 1] [2]) example_match =
     Returned False (example_graph Other [Static 1] [2])"
proof -
  let ?e = "example_env False"
  let ?g = "example_graph Other [Static 1] [2]"
  let ?d = "example_node Other [] [Static 1, Static 3, Static 8, Static 8] ''data'' []"
  let ?fq = "example_node FakeQuantize [0, 1, 2, 3, 4] [Static 1, Static 3, Static 8, Static 8] ''fq'' []"
  let ?lo = "example_node Constant [] [Static 1] ''out_low'' [0]"
  let ?hi = "example_node Constant [] [Static 1] ''out_high'' [1]"
  let ?c = "example_node Constant [] [Static 1] ''scale'' [2]"
  have b: "bound_nodes ?g example_match = Some (?d, ?fq, ?lo, ?hi, ?c)"
    by (simp add: bound_nodes_def get_node_def example_graph_def example_match_def)
  have p: "prepare_scale ?e ?g example_match ?d ?c = Proceed ?g 6"
    by (simp add: rule_simps example_simps)
  have "\<exists>g5 i n. build_new_fq ?e ?g example_match ?fq ?lo ?hi 6 = Some (g5, i, n)"
    by (simp add: rule_simps example_simps)
  then obtain g5 i n where f: "build_new_fq ?e ?g example_match ?fq ?lo ?hi 6 = Some (g5, i, n)"
    by blast
  have t: "node_type ?d \<noteq> Constant"
    by (simp add: example_node_def make_node_def)
  have h: "?e\<lparr>transformation_callback := \<lambda>g i. True\<rparr> = example_env True"
    by (simp add: example_env_def)
  show ?thesis
    using acceptance_hook [OF b p f, of "\<lambda>g i. True"] t h by simp
qed

text \<open>
  What lines 63 to 77 do with a Constant scale whose elements all equal \<open>v\<close>: a scale of
  one element is left as it is; any other is replaced by a new Constant of shape \<open>[1]\<close>
  and of the element type of the original, filled with \<open>v\<close> as converted to
  \<^verbatim>\<open>float\<close> and from there to the element type.
\<close>

lemma normalize_equal_elements:
  assumes "node_type c = Constant" and "data c = replicate (Suc n) v"
  shows "normalize_scale e g i c s =
           (if shape_size s = 1 then (g, i, s, True)
            else (g @ [Some (constant_node (element_type c) [1]
                              [from_float e (element_type c) (to_float e v)])],
                  length g, [1], True))"
proof -
  have "list_all (\<lambda>x. x = v) (replicate n v)"
    by (simp add: list_all_iff)
  then have "get_single_value e c = Some (to_float e v)"
    using assms(2) by (simp add: get_single_value_def)
  then show ?thesis
    using assms(1) by (simp add: normalize_scale_def add_node_def)
qed


section \<open>The pattern and the consumers of the FakeQuantize\<close>

text \<open>
  A consumer edge of a node is an input slot of a live node that holds it.
\<close>

lemma edges_of_iff:
  "(j', k) \<in> set (edges_of i j slot) \<longleftrightarrow>
     j' = j \<and> (\<exists>n. slot = Some n \<and> k < length (input_values n) \<and> input_values n ! k = i)"
  by (cases slot) (auto simp add: edges_of_def)

lemma edge_iff:
  "(j, k) \<in> set (get_target_inputs g i) \<longleftrightarrow>
     j < length g \<and> (\<exists>n. g ! j = Some n \<and> k < length (input_values n) \<and> input_values n ! k = i)"
  by (auto simp add: get_target_inputs_def edges_of_iff)

lemma singleton_list:
  assumes "length xs = 1" and "x \<in> set xs"
  shows "xs = [x]"
  using assms by (cases xs) auto

text \<open>
  Claim C5. On a match the only consumer edge of the FakeQuantize node is the one of the
  matched Multiply, so no user of it is a Convolution or a GroupConvolution and the test of
  line 86 fails.
\<close>

theorem single_consumer:
  assumes "matches g m"
  shows "get_users g (fq_node_p m) = [mul_node_p m] \<and> \<not> fq_output_is_conv g (fq_node_p m)"
proof -
  from assms obtain n where n: "get_node g (mul_node_p m) = Some n" and t: "node_type n = Multiply"
    by (auto simp add: matches_def is_type_def split: option.splits)
  from assms n have "input_values n = [fq_node_p m, mul_constant_p m] \<or>
      input_values n = [mul_constant_p m, fq_node_p m]"
    by (simp add: matches_def input_ids_def)
  then obtain k where k: "k < length (input_values n)" "input_values n ! k = fq_node_p m"
  proof
    assume "input_values n = [fq_node_p m, mul_constant_p m]"
    then have "0 < length (input_values n)" "input_values n ! 0 = fq_node_p m" by simp_all
    then show ?thesis by (rule that)
  next
    assume "input_values n = [mul_constant_p m, fq_node_p m]"
    then have "1 < length (input_values n)" "input_values n ! 1 = fq_node_p m" by simp_all
    then show ?thesis by (rule that)
  qed
  from n have "mul_node_p m < length g" "g ! mul_node_p m = Some n"
    by (auto simp add: get_node_def split: if_splits)
  with k have "(mul_node_p m, k) \<in> set (get_target_inputs g (fq_node_p m))"
    unfolding edge_iff by blast
  moreover from assms have "length (get_target_inputs g (fq_node_p m)) = 1"
    by (simp add: matches_def consumers_count_def)
  ultimately have "get_target_inputs g (fq_node_p m) = [(mul_node_p m, k)]"
    by (simp add: singleton_list)
  then have u: "get_users g (fq_node_p m) = [mul_node_p m]"
    by (simp add: get_users_def)
  from n t have "\<not> is_type Convolution g (mul_node_p m)" "\<not> is_type GroupConvolution g (mul_node_p m)"
    by (simp_all add: is_type_def)
  with u show ?thesis
    by (simp add: fq_output_is_conv_def)
qed

text \<open>
  The end-to-end scenario of the spec is a match.
\<close>

theorem single_consumer_witness:
  "get_users (example_graph Other [Static 1] [2]) (fq_node_p example_match) = [mul_node_p example_match] \<and>
   \<not> fq_output_is_conv (example_graph Other [Static 1] [2]) (fq_node_p example_match)"
proof -
  have "matches (example_graph Other [Static 1] [2]) example_match"
    by (simp add: matches_def consumers_count_def input_ids_def is_type_def get_node_def
        get_target_inputs_def edges_of_def example_graph_def example_match_def example_node_def
        make_node_def)
  then show ?thesis
    by (rule single_consumer)
qed

section \<open>The committed graph\<close>

lemma get_adjusted_output_range_shape:
  assumes "get_adjusted_output_range e g k i n = (g', j)"
  shows "\<exists>x. g' = g @ [Some x] \<and> j = length g"
  using assms
  by (auto simp add: get_adjusted_output_range_def add_node_def Let_def split: option.splits)

lemma build_new_fq_shape:
  assumes "build_new_fq e g2 m fq lo hi k = Some (g5, i, new_fq)"
  shows "\<exists>a b. g5 = g2 @ [Some a, Some b, Some new_fq] \<and> i = Suc (Suc (length g2))"
    and "node_type new_fq = node_type fq"
    and "auto_broadcast new_fq = auto_broadcast fq"
    and "friendly_name new_fq = []"
    and "rt_info new_fq = Map.empty"
    and "\<exists>i0 i1 i2 rest. input_values fq = i0 # i1 # i2 # rest \<and>
           input_values new_fq = [i0, i1, i2, length g2, Suc (length g2)]"
proof -
  from assms obtain i0 i1 i2 rest where fq: "input_values fq = i0 # i1 # i2 # rest"
    by (auto simp add: build_new_fq_def split: list.splits)
  obtain g3 low where l: "get_adjusted_output_range e g2 k (fq_output_low_p m) lo = (g3, low)"
    by (cases "get_adjusted_output_range e g2 k (fq_output_low_p m) lo") 
  obtain g4 high where h: "get_adjusted_output_range e g3 k (fq_output_high_p m) hi = (g4, high)"
    by (cases "get_adjusted_output_range e g3 k (fq_output_high_p m) hi")
  from get_adjusted_output_range_shape [OF l] obtain a where a: "g3 = g2 @ [Some a]" "low = length g2"
    by blast
  from get_adjusted_output_range_shape [OF h] obtain b where b: "g4 = g3 @ [Some b]" "high = length g3"
    by blast
  from assms fq l h have r: "g5 = g4 @ [Some new_fq]" "i = length g4"
    "new_fq = clone_with_new_inputs e g4 fq [i0, i1, i2, low, high]"
    by (auto simp add: build_new_fq_def add_node_def Let_def)
  from r a b show "\<exists>a b. g5 = g2 @ [Some a, Some b, Some new_fq] \<and> i = Suc (Suc (length g2))"
    by simp
  from r show "node_type new_fq = node_type fq" "auto_broadcast new_fq = auto_broadcast fq"
    "friendly_name new_fq = []" "rt_info new_fq = Map.empty"
    by (simp_all add: clone_with_new_inputs_def infer_node_def)
  from r a b fq show "\<exists>i0 i1 i2 rest. input_values fq = i0 # i1 # i2 # rest \<and>
           input_values new_fq = [i0, i1, i2, length g2, Suc (length g2)]"
    by (simp add: clone_with_new_inputs_def infer_node_def)
qed

lemma align_scale_extends:
  assumes "align_scale e g f d k s = Proceed g2 k'"
  shows "\<exists>ext. g2 = g @ ext"
  using assms
  by (auto simp add: align_scale_def add_node_def Let_def split: option.splits if_splits)

lemma prepare_scale_extends:
  assumes "prepare_scale e g m d c = Proceed g2 k"
  shows "\<exists>ext. g2 = g @ ext"
proof -
  from assms obtain s where s: "get_shape c = Some s"
    by (auto simp add: prepare_scale_def split: option.splits)
  show ?thesis
  proof (cases "normalize_scale e g (mul_constant_p m) c s")
    case (fields g1 k1 s1 single)
    then have g1: "\<exists>ext. g1 = g @ ext"
      by (auto simp add: normalize_scale_def add_node_def split: if_splits option.splits)
    show ?thesis
    proof (cases single)
      case True
      with assms s fields g1 show ?thesis by (simp add: prepare_scale_def)
    next
      case False
      with assms s fields have "align_scale e g1 (fq_node_p m) d k1 s1 = Proceed g2 k"
        by (simp add: prepare_scale_def)
      from align_scale_extends [OF this] g1 show ?thesis by auto
    qed
  qed
qed

lemma callback_commits:
  assumes "bound_nodes g m = Some (d, fq, lo, hi, c)"
    and "prepare_scale e g m d c = Proceed g2 k"
    and "build_new_fq e g2 m fq lo hi k = Some (g5, i, new_fq)"
    and "get_node g (mul_node_p m) = Some mul"
    and "callback e g m = Returned True g'"
  shows "g' = commit g g5 (mul_node_p m) i fq mul"
  using assms by (simp add: callback_def fuse_def check_and_commit_def split: if_splits)

lemma release_length: "length (release g i) = length g"
  by (simp add: release_def)

lemma release_other: "j \<noteq> i \<Longrightarrow> release g i ! j = g ! j"
  by (simp add: release_def)

lemma release_cases: "j < length g \<Longrightarrow> release g i ! j = g ! j \<or> release g i ! j = None"
  by (cases "j = i") (simp_all add: release_def)

lemma releases_length: "length (foldl release g xs) = length g"
  by (induction xs arbitrary: g) (simp_all add: release_length)

lemma releases_other: "j \<notin> set xs \<Longrightarrow> foldl release g xs ! j = g ! j"
  by (induction xs arbitrary: g) (simp_all add: release_other)

lemma releases_cases:
  "j < length g \<Longrightarrow> foldl release g xs ! j = g ! j \<or> foldl release g xs ! j = None"
proof (induction xs arbitrary: g)
  case Nil
  then show ?case by simp
next
  case (Cons x xs)
  from Cons.prems have "j < length (release g x)" by (simp add: release_length)
  from Cons.IH [OF this] release_cases [OF Cons.prems, of x] show ?case by auto
qed

lemma sweep_length: "length (sweep n g) = length g"
  by (simp add: sweep_def releases_length)

lemma sweep_below: "j < n \<Longrightarrow> sweep n g ! j = g ! j"
  by (simp add: sweep_def releases_other)

lemma sweep_cases: "j < length g \<Longrightarrow> sweep n g ! j = g ! j \<or> sweep n g ! j = None"
  by (simp add: sweep_def releases_cases)

lemma sweep_last_used:
  assumes "length g = Suc i" and "n \<le> i" and "get_users g i \<noteq> []"
  shows "sweep n g ! i = g ! i"
proof -
  from assms(1,2) have "rev [n..<length g] = i # rev [n..<i]"
    by simp
  moreover from assms(3) have "release g i = g"
    by (simp add: release_def)
  ultimately have "sweep n g = foldl release g (rev [n..<i])"
    by (simp add: sweep_def)
  then show ?thesis
    by (simp add: releases_other)
qed

lemma commit_inputs:
  assumes "j < length g5"
  shows "map_option input_values
           (update_node (update_node (replace_node g5 t i) i (set_friendly_name s)) i
              (copy_runtime_info srcs) ! j) =
         map_option (\<lambda>n. map (\<lambda>x. if x = t then i else x) (input_values n)) (g5 ! j)"
  using assms
  by (cases "g5 ! j")
    (auto simp add: update_node_def replace_node_def redirect_def set_friendly_name_def
      copy_runtime_info_def nth_list_update)

lemma commit_new_node:
  assumes "i < length g5" and "g5 ! i = Some n"
  shows "update_node (update_node (replace_node g5 t i) i (set_friendly_name s)) i
           (copy_runtime_info srcs) ! i =
         Some (copy_runtime_info srcs (set_friendly_name s (redirect t i n)))"
  using assms by (simp add: update_node_def replace_node_def)

lemma commit_length:
  "length (update_node (update_node (replace_node g5 t i) i f) i h) = length g5"
  by (simp add: update_node_def replace_node_def)

text \<open>
  Claim C9, as amended. After a committed rewrite of a Multiply that has a consumer, the new
  FakeQuantize node carries the friendly name of the Multiply, every consumer edge of the
  Multiply is a consumer edge of the new node, and nothing reads the Multiply any more. Its
  metadata bag is the bag of the original FakeQuantize overwritten by the bag of the
  Multiply: it holds the metadata of the Multiply, and it holds the metadata of the original
  FakeQuantize as well whenever the two bags give the same value to every key they share.
\<close>

theorem name_and_metadata:
  assumes "bound_nodes g m = Some (d, fq, lo, hi, c)"
    and "prepare_scale e g m d c = Proceed g2 k"
    and "build_new_fq e g2 m fq lo hi k = Some (g5, i, new_fq)"
    and "get_node g (mul_node_p m) = Some mul"
    and "get_target_inputs g (mul_node_p m) \<noteq> []"
    and "callback e g m = Returned True g'"
  shows "\<exists>n. get_node g' i = Some n \<and> node_type n = FakeQuantize \<and>
           friendly_name n = friendly_name mul \<and>
           rt_info n = rt_info fq ++ rt_info mul \<and>
           rt_info mul \<subseteq>\<^sub>m rt_info n \<and>
           ((\<forall>k \<in> dom (rt_info fq) \<inter> dom (rt_info mul). rt_info fq k = rt_info mul k) \<longrightarrow>
              rt_info fq \<subseteq>\<^sub>m rt_info n) \<and>
           set (get_target_inputs g (mul_node_p m)) \<subseteq> set (get_target_inputs g' i) \<and>
           get_target_inputs g' (mul_node_p m) = []"
proof -
  let ?t = "mul_node_p m"
  let ?u = "update_node (update_node (replace_node g5 ?t i) i (set_friendly_name (friendly_name mul))) i
              (copy_runtime_info [fq, mul])"
  let ?n = "copy_runtime_info [fq, mul] (set_friendly_name (friendly_name mul) (redirect ?t i new_fq))"
  have g': "g' = sweep (length g) ?u"
    using callback_commits [OF assms(1,2,3,4,6)] by (simp add: commit_def)
  from prepare_scale_extends [OF assms(2)] obtain ext where ext: "g2 = g @ ext" ..
  from build_new_fq_shape(1) [OF assms(3)] obtain a b
    where g5: "g5 = g2 @ [Some a, Some b, Some new_fq]" and i: "i = Suc (Suc (length g2))"
    by blast
  from g5 i have len: "length g5 = Suc i" and at_i: "g5 ! i = Some new_fq"
    by (simp_all add: nth_append)
  from ext i have low: "length g \<le> i"
    by simp
  from assms(4) have t: "?t < length g"
    by (auto simp add: get_node_def split: if_splits)
  have old: "g5 ! j = g ! j" if "j < length g" for j
    using that g5 ext by (simp add: nth_append)
  have lu: "length ?u = Suc i"
    using len by (simp add: commit_length)
  have ui: "?u ! i = Some ?n"
    using len at_i by (simp add: commit_new_node)
  have moved: "(j, s) \<in> set (get_target_inputs ?u i)"
    if "(j, s) \<in> set (get_target_inputs g ?t)" for j s
  proof -
    from that obtain n where j: "j < length g" and n: "g ! j = Some n"
      and s: "s < length (input_values n)" "input_values n ! s = ?t"
      unfolding edge_iff by blast
    from j low len have j5: "j < length g5" by simp
    from commit_inputs [OF j5, of ?t i "friendly_name mul" "[fq, mul]"] old [OF j] n
    obtain n' where n': "?u ! j = Some n'"
      and "input_values n' = map (\<lambda>x. if x = ?t then i else x) (input_values n)"
      by auto
    with s have "s < length (input_values n')" "input_values n' ! s = i"
      by simp_all
    with n' j5 lu len show ?thesis
      unfolding edge_iff by auto
  qed
  from assms(5) obtain j s where "(j, s) \<in> set (get_target_inputs g ?t)"
    by (cases "get_target_inputs g ?t") auto
  from moved [OF this] have "get_users ?u i \<noteq> []"
    by (auto simp add: get_users_def)
  from sweep_last_used [OF lu low this] g' ui have at: "g' ! i = Some ?n"
    by simp
  from g' lu have lg: "length g' = Suc i"
    by (simp add: sweep_length)
  with at have 1: "get_node g' i = Some ?n"
    by (simp add: get_node_def)
  from assms(1,2,3,4,6) have "node_type new_fq = FakeQuantize"
    by (simp add: callback_def fuse_def check_and_commit_def split: if_splits)
  then have 2: "node_type ?n = FakeQuantize"
    by (simp add: copy_runtime_info_def set_friendly_name_def redirect_def)
  have 3: "friendly_name ?n = friendly_name mul"
    by (simp add: copy_runtime_info_def set_friendly_name_def redirect_def)
  have 4: "rt_info ?n = rt_info fq ++ rt_info mul"
    using build_new_fq_shape(5) [OF assms(3)]
    by (simp add: copy_runtime_info_def set_friendly_name_def redirect_def)
  have bag_mul: "rt_info mul \<subseteq>\<^sub>m rt_info ?n"
    unfolding 4 by simp
  have bag_fq: "rt_info fq \<subseteq>\<^sub>m rt_info ?n"
    if same: "\<forall>x \<in> dom (rt_info fq) \<inter> dom (rt_info mul). rt_info fq x = rt_info mul x"
    unfolding 4 map_le_def
  proof
    fix x assume x: "x \<in> dom (rt_info fq)"
    show "rt_info fq x = (rt_info fq ++ rt_info mul) x"
    proof (cases "rt_info mul x")
      case None
      then show ?thesis by (simp add: map_add_def)
    next
      case (Some v)
      with x have "x \<in> dom (rt_info fq) \<inter> dom (rt_info mul)" by auto
      with same have "rt_info fq x = rt_info mul x" by blast
      with Some show ?thesis by (simp add: map_add_def)
    qed
  qed
  have 5: "set (get_target_inputs g ?t) \<subseteq> set (get_target_inputs g' i)"
  proof
    fix x assume x: "x \<in> set (get_target_inputs g ?t)"
    obtain j s where js: "x = (j, s)" by (cases x)
    with x have e: "(j, s) \<in> set (get_target_inputs g ?t)" by simp
    then have "j < length g" by (simp add: edge_iff)
    then have "g' ! j = ?u ! j"
      using g' by (simp add: sweep_below)
    moreover from moved [OF e] have "j < length ?u \<and>
        (\<exists>n. ?u ! j = Some n \<and> s < length (input_values n) \<and> input_values n ! s = i)"
      by (simp only: edge_iff)
    ultimately have "(j, s) \<in> set (get_target_inputs g' i)"
      using lg lu by (simp add: edge_iff)
    with js show "x \<in> set (get_target_inputs g' i)" by simp
  qed
  have 6: "get_target_inputs g' ?t = []"
  proof (rule ccontr)
    assume "get_target_inputs g' ?t \<noteq> []"
    then obtain j s where "(j, s) \<in> set (get_target_inputs g' ?t)"
      by (cases "get_target_inputs g' ?t") auto
    then obtain n' where j: "j < length g'" and n': "g' ! j = Some n'"
      and s: "s < length (input_values n')" "input_values n' ! s = ?t"
      unfolding edge_iff by blast
    from j lg lu have ju: "j < length ?u" by simp
    from sweep_cases [OF ju, of "length g"] g' n' have u: "?u ! j = Some n'"
      by auto
    from j lg len have j5: "j < length g5" by simp
    from commit_inputs [OF j5, of ?t i "friendly_name mul" "[fq, mul]"] u
    have "map_option (\<lambda>n. map (\<lambda>x. if x = ?t then i else x) (input_values n)) (g5 ! j) =
        Some (input_values n')"
      by simp
    then obtain n5 where "g5 ! j = Some n5"
      and "input_values n' = map (\<lambda>x. if x = ?t then i else x) (input_values n5)"
      unfolding map_option_eq_Some by auto
    with s have "(if input_values n5 ! s = ?t then i else input_values n5 ! s) = ?t"
      by simp
    with t low show False
      by (simp split: if_splits)
  qed
  from 1 2 3 4 bag_mul bag_fq 5 6 show ?thesis
    by blast
qed

section \<open>Folding the adjusted ranges\<close>

lemma bound_nodes_iff:
  "bound_nodes g m = Some (d, fq, lo, hi, c) \<longleftrightarrow>
     get_node g (data_p m) = Some d \<and> get_node g (fq_node_p m) = Some fq \<and>
     get_node g (fq_output_low_p m) = Some lo \<and> get_node g (fq_output_high_p m) = Some hi \<and>
     get_node g (mul_constant_p m) = Some c"
  by (auto simp add: bound_nodes_def Option.bind_eq_Some_conv)

lemma get_node_append:
  "get_node g i = Some n \<Longrightarrow> get_node (g @ ext) i = Some n"
  by (auto simp add: get_node_def nth_append split: if_splits)

lemma to_dims_static: "to_dims (map Static s) = Some s"
  by (induction s) simp_all

lemma get_shape_constant_node: "get_shape (constant_node et s vs) = Some s"
  by (simp add: get_shape_def to_shape_def constant_node_def make_node_def to_dims_static)

lemma node_type_constant_node: "node_type (constant_node et s vs) = Constant"
  by (simp add: constant_node_def make_node_def)

lemma evaluate_constant:
  assumes "node_type n = Constant" and "get_shape n = Some s"
  shows "evaluate_if_constant e g (Suc f) n = Some (s, data n)"
  using assms by simp

lemma prepare_scale_cases:
  assumes "prepare_scale e g m d c = Proceed g2 k"
  shows "(g2 = g \<and> k = mul_constant_p m) \<or>
         (\<exists>v. g2 = g @ [Some (constant_node (element_type c) [1] [v])] \<and> k = length g) \<or>
         (\<exists>p r ps. g2 = g @ [Some p, Some r] \<and> node_type p = Constant \<and> get_shape p = Some ps \<and>
            k = Suc (length g) \<and> node_type r = Reshape \<and>
            input_values r = [mul_constant_p m, length g])"
proof -
  from assms obtain s where s: "get_shape c = Some s"
    by (auto simp add: prepare_scale_def split: option.splits)
  show ?thesis
  proof (cases "normalize_scale e g (mul_constant_p m) c s")
    case (fields g1 k1 s1 single)
    show ?thesis
    proof (cases single)
      case True
      with assms s fields have "g2 = g1" "k = k1"
        by (simp_all add: prepare_scale_def)
      with fields True show ?thesis
        by (auto simp add: normalize_scale_def add_node_def split: if_splits option.splits)
    next
      case False
      with fields have "g1 = g" "k1 = mul_constant_p m"
        by (auto simp add: normalize_scale_def add_node_def split: if_splits option.splits)
      with assms s fields False
      have "align_scale e g (fq_node_p m) d (mul_constant_p m) s1 = Proceed g2 k"
        by (simp add: prepare_scale_def)
      then show ?thesis
        by (auto simp add: align_scale_def add_node_def Let_def infer_node_def make_node_def
            get_shape_constant_node node_type_constant_node split: option.splits if_splits)
    qed
  qed
qed

lemma scale_evaluates:
  assumes "get_node g (mul_constant_p m) = Some c" and "node_type c = Constant"
    and "prepare_scale e g m d c = Proceed g2 k"
  shows "\<exists>kn ts. \<forall>ext. get_node (g2 @ ext) k = Some kn \<and>
           evaluate_if_constant e (g2 @ ext) (length (g2 @ ext)) kn = Some ts"
proof -
  from assms(3) obtain s where s: "get_shape c = Some s"
    by (auto simp add: prepare_scale_def split: option.splits)
  from assms(1) obtain f where f: "length g = Suc f"
    by (cases "length g") (auto simp add: get_node_def)
  from prepare_scale_cases [OF assms(3)] show ?thesis
  proof (elim disjE exE conjE)
    assume "g2 = g" "k = mul_constant_p m"
    with assms(1,2) s f have "\<forall>ext. get_node (g2 @ ext) k = Some c \<and>
        evaluate_if_constant e (g2 @ ext) (length (g2 @ ext)) c = Some (s, data c)"
      by (simp add: get_node_append)
    then show ?thesis by blast
  next
    fix v
    assume "g2 = g @ [Some (constant_node (element_type c) [1] [v])]" "k = length g"
    then have "\<forall>ext. get_node (g2 @ ext) k = Some (constant_node (element_type c) [1] [v]) \<and>
        evaluate_if_constant e (g2 @ ext) (length (g2 @ ext)) (constant_node (element_type c) [1] [v]) =
          Some ([1], data (constant_node (element_type c) [1] [v]))"
      by (simp add: get_node_def nth_append node_type_constant_node get_shape_constant_node)
    then show ?thesis by blast
  next
    fix p r ps
    assume g2: "g2 = g @ [Some p, Some r]" and p: "node_type p = Constant" "get_shape p = Some ps"
      and k: "k = Suc (length g)" and r: "node_type r = Reshape"
      "input_values r = [mul_constant_p m, length g]"
    have "get_node (g2 @ ext) k = Some r \<and>
        evaluate_if_constant e (g2 @ ext) (length (g2 @ ext)) r =
          Some (tensor_reshape e (s, data c) (ps, data p))" for ext
    proof -
      have 1: "get_node (g2 @ ext) (mul_constant_p m) = Some c"
        using assms(1) g2 by (simp add: get_node_append)
      have 2: "get_node (g2 @ ext) (length g) = Some p"
        using g2 by (simp add: get_node_def nth_append)
      have 3: "get_node (g2 @ ext) k = Some r"
        using g2 k by (simp add: get_node_def nth_append)
      have 4: "length (g2 @ ext) = Suc (Suc (length g + length ext))"
        using g2 by simp
      show ?thesis
        unfolding 4 using 1 2 3 r p s assms(2) by simp
    qed
    then show ?thesis by blast
  qed
qed

lemma folded_range:
  assumes "get_node g i = Some n" and "node_type n = Constant" and "get_shape n = Some s"
    and "get_node g k = Some kn" and "evaluate_if_constant e g (length g) kn = Some ts"
  shows "\<exists>x. get_adjusted_output_range e g k i n = (g @ [Some x], length g) \<and>
           node_type x = Constant \<and> get_shape x = Some (fst (tensor_multiply e (s, data n) ts)) \<and>
           data x = snd (tensor_multiply e (s, data n) ts)"
proof -
  let ?ret = "copy_runtime_info [n]
      (infer_node e g (make_node Multiply [i, k] Rank_dynamic (element_type n) []))"
  from assms(1) obtain f where f: "length g = Suc f"
    by (cases "length g") (auto simp add: get_node_def)
  have t: "node_type ?ret = Multiply" "input_values ?ret = [i, k]"
    by (simp_all add: copy_runtime_info_def infer_node_def make_node_def)
  have "evaluate_if_constant e g (length g) n = Some (s, data n)"
    unfolding f using assms(2,3) by (rule evaluate_constant)
  with t assms(1,4,5)
  have "evaluate_if_constant e g (Suc (length g)) ?ret = Some (tensor_multiply e (s, data n) ts)"
    by simp
  then have "get_adjusted_output_range e g k i n =
      (g @ [Some (constant_node (element_type ?ret) (fst (tensor_multiply e (s, data n) ts))
                    (snd (tensor_multiply e (s, data n) ts)))], length g)"
    by (simp add: get_adjusted_output_range_def get_constant_from_source_def add_node_def Let_def)
  moreover have "data (constant_node et sh vs) = vs" for et sh and vs :: "'a list"
    by (simp add: constant_node_def make_node_def)
  ultimately show ?thesis
    by (simp add: node_type_constant_node get_shape_constant_node)
qed

lemma build_new_fq_folded:
  assumes "bound_nodes g m = Some (d, fq, lo, hi, c)"
    and "prepare_scale e g m d c = Proceed g2 k"
    and "build_new_fq e g2 m fq lo hi k = Some (g5, i, new_fq)"
    and "node_type c = Constant"
    and "node_type lo = Constant" and "get_shape lo = Some sl"
    and "node_type hi = Constant" and "get_shape hi = Some sh"
  shows "\<exists>ts low high.
           Option.bind (get_node g2 k) (evaluate_if_constant e g2 (length g2)) = Some ts \<and>
           g5 = g2 @ [Some low, Some high, Some new_fq] \<and>
           node_type low = Constant \<and>
           get_shape low = Some (fst (tensor_multiply e (sl, data lo) ts)) \<and>
           data low = snd (tensor_multiply e (sl, data lo) ts) \<and>
           node_type high = Constant \<and>
           get_shape high = Some (fst (tensor_multiply e (sh, data hi) ts)) \<and>
           data high = snd (tensor_multiply e (sh, data hi) ts)"
proof -
  from assms(1) have b: "get_node g (fq_output_low_p m) = Some lo"
    "get_node g (fq_output_high_p m) = Some hi" "get_node g (mul_constant_p m) = Some c"
    by (simp_all add: bound_nodes_iff)
  from prepare_scale_extends [OF assms(2)] obtain ext where ext: "g2 = g @ ext" ..
  from scale_evaluates [OF b(3) assms(4) assms(2)] obtain kn ts
    where sc: "\<And>x. get_node (g2 @ x) k = Some kn"
      "\<And>x. evaluate_if_constant e (g2 @ x) (length (g2 @ x)) kn = Some ts"
    by blast
  from sc(1) [of "[]"] sc(2) [of "[]"] have k2: "get_node g2 k = Some kn"
    "evaluate_if_constant e g2 (length g2) kn = Some ts"
    by simp_all
  have lo2: "get_node g2 (fq_output_low_p m) = Some lo"
    using b(1) ext by (simp add: get_node_append)
  from folded_range [OF lo2 assms(5,6) k2] obtain low
    where low: "get_adjusted_output_range e g2 k (fq_output_low_p m) lo = (g2 @ [Some low], length g2)"
      "node_type low = Constant" "get_shape low = Some (fst (tensor_multiply e (sl, data lo) ts))"
      "data low = snd (tensor_multiply e (sl, data lo) ts)"
    by blast
  have hi3: "get_node (g2 @ [Some low]) (fq_output_high_p m) = Some hi"
    using b(2) ext by (simp add: get_node_append)
  from folded_range [OF hi3 assms(7,8) sc(1) sc(2)] obtain high
    where high: "get_adjusted_output_range e (g2 @ [Some low]) k (fq_output_high_p m) hi =
        ((g2 @ [Some low]) @ [Some high], length (g2 @ [Some low]))"
      "node_type high = Constant" "get_shape high = Some (fst (tensor_multiply e (sh, data hi) ts))"
      "data high = snd (tensor_multiply e (sh, data hi) ts)"
    by blast
  from assms(3) low(1) high(1) have "g5 = g2 @ [Some low, Some high, Some new_fq]"
    by (auto simp add: build_new_fq_def add_node_def Let_def split: list.splits)
  with k2 low(2,3,4) high(2,3,4) show ?thesis
    by simp
qed

lemma used_by:
  assumes "j < length u" and "u ! j = Some x" and "l \<in> set (input_values x)"
  shows "get_users u l \<noteq> []"
proof -
  from assms(3) obtain s where "s < length (input_values x)" "input_values x ! s = l"
    by (auto simp add: in_set_conv_nth)
  with assms(1,2) have "(j, s) \<in> set (get_target_inputs u l)"
    by (auto simp add: edge_iff)
  then show ?thesis
    by (auto simp add: get_users_def)
qed

lemma sweep_keeps:
  assumes "length u = Suc (Suc (Suc l))" and "n \<le> l"
    and "get_users u (Suc (Suc l)) \<noteq> []"
    and "u ! Suc (Suc l) = Some x"
    and "l \<in> set (input_values x)" and "Suc l \<in> set (input_values x)"
  shows "sweep n u ! l = u ! l" and "sweep n u ! Suc l = u ! Suc l"
    and "sweep n u ! Suc (Suc l) = u ! Suc (Suc l)"
proof -
  from assms(1,2) have "rev [n..<length u] = Suc (Suc l) # Suc l # l # rev [n..<l]"
    by simp
  moreover from assms(3) have "release u (Suc (Suc l)) = u"
    by (simp add: release_def)
  moreover from used_by [OF _ assms(4,6)] assms(1) have "release u (Suc l) = u"
    by (simp add: release_def)
  moreover from used_by [OF _ assms(4,5)] assms(1) have "release u l = u"
    by (simp add: release_def)
  ultimately have "sweep n u = foldl release u (rev [n..<l])"
    by (simp add: sweep_def)
  then show "sweep n u ! l = u ! l" and "sweep n u ! Suc l = u ! Suc l"
    and "sweep n u ! Suc (Suc l) = u ! Suc (Suc l)"
    by (simp_all add: releases_other)
qed

lemma commit_fields:
  assumes "j < length g5"
  shows "map_option (\<lambda>n. (node_type n, output_partial_shape n, data n))
           (update_node (update_node (replace_node g5 t i) i (set_friendly_name s)) i
              (copy_runtime_info srcs) ! j) =
         map_option (\<lambda>n. (node_type n, output_partial_shape n, data n)) (g5 ! j)"
  using assms
  by (cases "g5 ! j")
    (auto simp add: update_node_def replace_node_def redirect_def set_friendly_name_def
      copy_runtime_info_def nth_list_update)

lemma commit_edges:
  assumes "(j, s) \<in> set (get_target_inputs g t)"
  shows "(j, s) \<in> set (get_target_inputs
           (update_node (update_node (replace_node (g @ ext) t i) i (set_friendly_name nm)) i
              (copy_runtime_info srcs)) i)"
proof -
  let ?u = "update_node (update_node (replace_node (g @ ext) t i) i (set_friendly_name nm)) i
              (copy_runtime_info srcs)"
  from assms obtain n where j: "j < length g" and n: "g ! j = Some n"
    and s: "s < length (input_values n)" "input_values n ! s = t"
    unfolding edge_iff by blast
  from j have j5: "j < length (g @ ext)" by simp
  from commit_inputs [OF j5, of t i nm srcs] n j
  obtain n' where n': "?u ! j = Some n'"
    and "input_values n' = map (\<lambda>x. if x = t then i else x) (input_values n)"
    by (auto simp add: nth_append)
  with s have "s < length (input_values n')" "input_values n' ! s = i"
    by simp_all
  with n' j5 show ?thesis
    by (auto simp add: edge_iff commit_length)
qed

lemma created_not_multiply:
  assumes "prepare_scale e g m d c = Proceed g2 k"
    and "g5 = g2 @ [Some low, Some high, Some new_fq]"
    and "node_type low = Constant" and "node_type high = Constant"
    and "node_type new_fq = FakeQuantize"
    and "length g \<le> j" and "g5 ! j = Some y"  and "j < length g5"
  shows "node_type y \<noteq> Multiply"
proof -
  from prepare_scale_extends [OF assms(1)] obtain ext where ext: "g2 = g @ ext" ..
  let ?new = "ext @ [Some low, Some high, Some new_fq]"
  from assms(2,6,8) ext have "g5 ! j = ?new ! (j - length g)" "j - length g < length ?new"
    by (simp_all add: nth_append)
  then have "g5 ! j \<in> set ?new"
    by (metis nth_mem)
  with assms(7) have y: "Some y \<in> set ext \<or> y = low \<or> y = high \<or> y = new_fq"
    by auto
  from prepare_scale_cases [OF assms(1)] ext
  have "ext = [] \<or> (\<exists>v. ext = [Some (constant_node (element_type c) [1] [v])]) \<or>
      (\<exists>p r. ext = [Some p, Some r] \<and> node_type p = Constant \<and> node_type r = Reshape)"
    by auto
  then have "Some y \<in> set ext \<Longrightarrow> node_type y \<noteq> Multiply"
    by (auto simp add: node_type_constant_node)
  with y assms(3,4,5) show ?thesis
    by auto
qed

text \<open>
  After a committed rewrite whose scale and output range bounds are Constant nodes, the
  inputs 3 and 4 of the new FakeQuantize node are Constant nodes that hold the product of
  the range bound and the value \<open>ts\<close> of the scale as lines 63 to 102 prepared it, and no
  node the callback created and left in the graph is a Multiply.
\<close>

lemma constant_folding:
  assumes "bound_nodes g m = Some (d, fq, lo, hi, c)"
    and "prepare_scale e g m d c = Proceed g2 k"
    and "build_new_fq e g2 m fq lo hi k = Some (g5, i, new_fq)"
    and "get_node g (mul_node_p m) = Some mul"
    and "get_target_inputs g (mul_node_p m) \<noteq> []"
    and "callback e g m = Returned True g'"
    and "node_type c = Constant"
    and "node_type lo = Constant" and "get_shape lo = Some sl"
    and "node_type hi = Constant" and "get_shape hi = Some sh"
  shows "\<exists>ts n low high.
           Option.bind (get_node g2 k) (evaluate_if_constant e g2 (length g2)) = Some ts \<and>
           get_node g' i = Some n \<and>
           input_values n ! 3 = length g2 \<and> input_values n ! 4 = Suc (length g2) \<and>
           get_node g' (length g2) = Some low \<and> node_type low = Constant \<and>
           get_shape low = Some (fst (tensor_multiply e (sl, data lo) ts)) \<and>
           data low = snd (tensor_multiply e (sl, data lo) ts) \<and>
           get_node g' (Suc (length g2)) = Some high \<and> node_type high = Constant \<and>
           get_shape high = Some (fst (tensor_multiply e (sh, data hi) ts)) \<and>
           data high = snd (tensor_multiply e (sh, data hi) ts) \<and>
           \<not> list_ex (is_type Multiply g') [length g..<length g']"
proof -
  let ?t = "mul_node_p m"
  let ?l = "length g2"
  let ?u = "update_node (update_node (replace_node g5 ?t i) i (set_friendly_name (friendly_name mul))) i
              (copy_runtime_info [fq, mul])"
  let ?n = "copy_runtime_info [fq, mul] (set_friendly_name (friendly_name mul) (redirect ?t i new_fq))"
  from build_new_fq_folded [OF assms(1,2,3,7,8,9,10,11)] obtain ts a b
    where ts: "Option.bind (get_node g2 k) (evaluate_if_constant e g2 (length g2)) = Some ts"
      and g5: "g5 = g2 @ [Some a, Some b, Some new_fq]"
      and a: "node_type a = Constant" "get_shape a = Some (fst (tensor_multiply e (sl, data lo) ts))"
        "data a = snd (tensor_multiply e (sl, data lo) ts)"
      and b: "node_type b = Constant" "get_shape b = Some (fst (tensor_multiply e (sh, data hi) ts))"
        "data b = snd (tensor_multiply e (sh, data hi) ts)"
    by blast
  from build_new_fq_shape(1) [OF assms(3)] have i: "i = Suc (Suc ?l)"
    by blast
  from build_new_fq_shape(6) [OF assms(3)] obtain i0 i1 i2
    where ins: "input_values new_fq = [i0, i1, i2, ?l, Suc ?l]"
    by blast
  from prepare_scale_extends [OF assms(2)] obtain ext where ext: "g2 = g @ ext" ..
  from assms(4) have t: "?t < length g"
    by (auto simp add: get_node_def split: if_splits)
  have g': "g' = sweep (length g) ?u"
    using callback_commits [OF assms(1,2,3,4,6)] by (simp add: commit_def)
  from assms(1,2,3,4,6) have fqt: "node_type new_fq = FakeQuantize"
    by (simp add: callback_def fuse_def check_and_commit_def split: if_splits)
  from g5 i have len: "length g5 = Suc (Suc (Suc ?l))" and at_i: "g5 ! i = Some new_fq"
    by (simp_all add: nth_append)
  have lu: "length ?u = Suc (Suc (Suc ?l))"
    using len by (simp add: commit_length)
  have ui: "?u ! Suc (Suc ?l) = Some ?n"
    using len at_i i commit_new_node [of i g5 new_fq ?t "friendly_name mul" "[fq, mul]"] by simp
  from t ext ins have in3: "input_values ?n ! 3 = ?l" and in4: "input_values ?n ! 4 = Suc ?l"
    by (simp_all add: copy_runtime_info_def set_friendly_name_def redirect_def)
  from t ext ins have mem: "?l \<in> set (input_values ?n)" "Suc ?l \<in> set (input_values ?n)"
    by (simp_all add: copy_runtime_info_def set_friendly_name_def redirect_def)
  from assms(5) obtain j s where "(j, s) \<in> set (get_target_inputs g ?t)"
    by (cases "get_target_inputs g ?t") auto
  from commit_edges [OF this, of "ext @ [Some a, Some b, Some new_fq]" i "friendly_name mul" "[fq, mul]"]
  have "get_users ?u (Suc (Suc ?l)) \<noteq> []"
    using g5 ext i by (auto simp add: get_users_def)
  note keep = sweep_keeps [OF lu _ this ui mem, of "length g"]
  from ext have low: "length g \<le> ?l"
    by simp
  from g' lu have lg: "length g' = Suc (Suc (Suc ?l))"
    by (simp add: sweep_length)
  have 1: "get_node g' i = Some ?n"
    using keep(3) [OF low] g' ui i lg by (simp add: get_node_def)
  have fields: "\<exists>y. get_node g' j = Some y \<and> node_type y = node_type x \<and>
      get_shape y = get_shape x \<and> data y = data x"
    if "g5 ! j = Some x" and "g' ! j = ?u ! j" and "j < length g5" for j x
  proof -
    from commit_fields [OF that(3), of ?t i "friendly_name mul" "[fq, mul]"] that(1)
    have "map_option (\<lambda>n. (node_type n, output_partial_shape n, data n)) (?u ! j) =
        Some (node_type x, output_partial_shape x, data x)"
      by simp
    then obtain y where "?u ! j = Some y" "node_type y = node_type x"
      "output_partial_shape y = output_partial_shape x" "data y = data x"
      unfolding map_option_eq_Some by auto
    with that(2,3) len lg show ?thesis
      by (simp add: get_node_def get_shape_def)
  qed
  from fields [of ?l a] keep(1) [OF low] g' g5 obtain lw
    where 2: "get_node g' ?l = Some lw" "node_type lw = node_type a" "get_shape lw = get_shape a"
      "data lw = data a"
    by (auto simp add: nth_append)
  from fields [of "Suc ?l" b] keep(2) [OF low] g' g5 obtain hg
    where 3: "get_node g' (Suc ?l) = Some hg" "node_type hg = node_type b" "get_shape hg = get_shape b"
      "data hg = data b"
    by (auto simp add: nth_append)
  have 4: "\<not> list_ex (is_type Multiply g') [length g..<length g']"
  proof
    assume "list_ex (is_type Multiply g') [length g..<length g']"
    then obtain j y where j: "length g \<le> j" "j < length g'" and y: "g' ! j = Some y"
      "node_type y = Multiply"
      by (auto simp add: list_ex_iff is_type_def get_node_def split: option.splits if_splits)
    from j lg lu have ju: "j < length ?u" by simp
    from sweep_cases [OF ju, of "length g"] g' y have u: "?u ! j = Some y"
      by auto
    from j lg len have j5: "j < length g5" by simp
    from commit_fields [OF j5, of ?t i "friendly_name mul" "[fq, mul]"] u
    have "map_option (\<lambda>n. (node_type n, output_partial_shape n, data n)) (g5 ! j) =
        Some (node_type y, output_partial_shape y, data y)"
      by simp
    then obtain y5 where "g5 ! j = Some y5" "node_type y5 = node_type y"
      unfolding map_option_eq_Some by auto
    with created_not_multiply [OF assms(2) g5 a(1) b(1) fqt j(1) _ j5] y(2) show False
      by simp
  qed
  from ts 1 in3 in4 2 3 4 a b show ?thesis
    by auto
qed

text \<open>
  The end-to-end scenario of the spec: the new node is named after the Multiply, the
  consumer of the Multiply reads it, and its bag holds the entries that only one of the two
  nodes has, with the entry of the Multiply under the key they share.
\<close>

theorem name_and_metadata_witness:
  "\<exists>g' n. callback (example_env False) (example_graph Other [Static 1] [2]) example_match =
            Returned True g' \<and>
          get_node g' 11 = Some n \<and> node_type n = FakeQuantize \<and> friendly_name n = ''mul'' \<and>
          rt_info n ''fq'' = Some ''seen'' \<and> rt_info n ''mul'' = Some ''seen'' \<and>
          rt_info n ''name'' = Some ''mul'' \<and>
          (8, 0) \<in> set (get_target_inputs g' 11) \<and> get_target_inputs g' 7 = []"
proof -
  let ?e = "example_env False"
  let ?g = "example_graph Other [Static 1] [2]"
  let ?d = "example_node Other [] [Static 1, Static 3, Static 8, Static 8] ''data'' []"
  let ?fq = "example_node FakeQuantize [0, 1, 2, 3, 4] [Static 1, Static 3, Static 8, Static 8] ''fq'' []"
  let ?lo = "example_node Constant [] [Static 1] ''out_low'' [0]"
  let ?hi = "example_node Constant [] [Static 1] ''out_high'' [1]"
  let ?c = "example_node Constant [] [Static 1] ''scale'' [2]"
  let ?mul = "example_node Multiply [5, 6] [Static 1, Static 3, Static 8, Static 8] ''mul'' []"
  have b: "bound_nodes ?g example_match = Some (?d, ?fq, ?lo, ?hi, ?c)"
    by (simp add: bound_nodes_def get_node_def example_graph_def example_match_def)
  have p: "prepare_scale ?e ?g example_match ?d ?c = Proceed ?g 6"
    by (simp add: rule_simps example_simps)
  have "\<exists>g5 n. build_new_fq ?e ?g example_match ?fq ?lo ?hi 6 = Some (g5, 11, n)"
    by (simp add: rule_simps example_simps)
  then obtain g5 n where f: "build_new_fq ?e ?g example_match ?fq ?lo ?hi 6 = Some (g5, 11, n)"
    by blast
  have m: "get_node ?g (mul_node_p example_match) = Some ?mul"
    by (simp add: get_node_def example_graph_def example_match_def)
  have u: "get_target_inputs ?g (mul_node_p example_match) = [(8, 0)]"
    by (simp add: get_target_inputs_def edges_of_def example_simps)
  then have u': "get_target_inputs ?g (mul_node_p example_match) \<noteq> []"
    by simp
  have "\<exists>g'. callback ?e ?g example_match = Returned True g'"
    by (simp add: rule_simps commit_simps example_simps)
  then obtain g' where r: "callback ?e ?g example_match = Returned True g'"
    by blast
  from name_and_metadata [OF b p f m u' r] u r show ?thesis
    by (auto simp add: example_node_def make_node_def example_match_def)
qed

text \<open>
  The end-to-end scenario of the spec: the ranges \<open>[0]\<close> and \<open>[1]\<close> times the scale
  \<open>[2]\<close> are the constants \<open>[0]\<close> and \<open>[2]\<close>.
\<close>

lemma constant_folding_example:
  "\<exists>g' low high. callback (example_env False) (example_graph Other [Static 1] [2]) example_match =
            Returned True g' \<and>
          get_node g' 9 = Some low \<and> node_type low = Constant \<and> get_shape low = Some [1] \<and>
          data low = [0] \<and>
          get_node g' 10 = Some high \<and> node_type high = Constant \<and> get_shape high = Some [1] \<and>
          data high = [2] \<and>
          \<not> list_ex (is_type Multiply g') [9..<length g']"
proof -
  let ?e = "example_env False"
  let ?g = "example_graph Other [Static 1] [2]"
  let ?d = "example_node Other [] [Static 1, Static 3, Static 8, Static 8] ''data'' []"
  let ?fq = "example_node FakeQuantize [0, 1, 2, 3, 4] [Static 1, Static 3, Static 8, Static 8] ''fq'' []"
  let ?lo = "example_node Constant [] [Static 1] ''out_low'' [0]"
  let ?hi = "example_node Constant [] [Static 1] ''out_high'' [1]"
  let ?c = "example_node Constant [] [Static 1] ''scale'' [2]"
  let ?mul = "example_node Multiply [5, 6] [Static 1, Static 3, Static 8, Static 8] ''mul'' []"
  have b: "bound_nodes ?g example_match = Some (?d, ?fq, ?lo, ?hi, ?c)"
    by (simp add: bound_nodes_def get_node_def example_graph_def example_match_def)
  have p: "prepare_scale ?e ?g example_match ?d ?c = Proceed ?g 6"
    by (simp add: rule_simps example_simps)
  have "\<exists>g5 n. build_new_fq ?e ?g example_match ?fq ?lo ?hi 6 = Some (g5, 11, n)"
    by (simp add: rule_simps example_simps)
  then obtain g5 n where f: "build_new_fq ?e ?g example_match ?fq ?lo ?hi 6 = Some (g5, 11, n)"
    by blast
  have m: "get_node ?g (mul_node_p example_match) = Some ?mul"
    by (simp add: get_node_def example_graph_def example_match_def)
  have u: "get_target_inputs ?g (mul_node_p example_match) \<noteq> []"
    by (simp add: get_target_inputs_def edges_of_def example_simps)
  have "\<exists>g'. callback ?e ?g example_match = Returned True g'"
    by (simp add: rule_simps commit_simps example_simps)
  then obtain g' where r: "callback ?e ?g example_match = Returned True g'"
    by blast
  have tc: "node_type ?c = Constant" and tl: "node_type ?lo = Constant" and th: "node_type ?hi = Constant"
    by (simp_all add: example_node_def make_node_def)
  have sl: "get_shape ?lo = Some [1]" and sh: "get_shape ?hi = Some [1]"
    by (simp_all add: get_shape_def to_shape_def example_node_def make_node_def)
  have ts: "Option.bind (get_node ?g 6) (evaluate_if_constant ?e ?g (length ?g)) = Some ([1], [2])"
    by (simp add: get_node_def get_shape_def to_shape_def example_simps)
  have l: "length ?g = 9"
    by (simp add: example_graph_def)
  from constant_folding [OF b p f m u r tc tl sl th sh] ts r l show ?thesis
    by (auto simp add: example_env_def example_node_def make_node_def)
qed

text \<open>
  Claim C9 as stated fails. In the end-to-end scenario the original FakeQuantize and the
  Multiply both carry the key \<open>name\<close>; after the committed rewrite the new node has the
  value of the Multiply under it, and the entry of the FakeQuantize is not in its bag.
\<close>

theorem shared_key_counterexample:
  "returned (callback (example_env False) (example_graph Other [Static 1] [2]) example_match) =
     Some True \<and>
   annotation (get_node (example_graph Other [Static 1] [2]) (fq_node_p example_match)) ''name'' =
     Some ''fq'' \<and>
   annotation
     (node_after (callback (example_env False) (example_graph Other [Static 1] [2]) example_match) 11)
     ''name'' = Some ''mul''"
  by (simp add: rule_simps commit_simps example_simps node_after_def annotation_def)


text \<open>
  Under a broadcast policy other than NUMPY the check of lines 133 to 141 is skipped: a
  replacement that is a FakeQuantize is committed whatever the shapes.
\<close>

lemma strict_policy_commits:
  assumes "get_node g0 (mul_node_p m) = Some mul"
    and "node_type new_fq = FakeQuantize" and "auto_broadcast new_fq \<noteq> NUMPY"
  shows "check_and_commit g0 g m fq i new_fq = Returned True (commit g0 g (mul_node_p m) i fq mul)"
  using assms by (simp add: check_and_commit_def)

text \<open>
  A rejected rewrite leaves no trace: whenever the callback returns false, the graph is the
  one it was given.
\<close>

lemma rejected_graph_unchanged:
  assumes "callback e g m = Returned False g'"
  shows "g' = g"
  using assms
  by (auto simp add: callback_def fuse_def check_and_commit_def
      split: option.splits prod.splits aligned.splits if_splits)

end
